theory Spec2Isabelle
  imports Main "HOL-Library.AList"
begin

section \<open>The Merkle tree's mutation engine (merkle/put.go)\<close>

text \<open>
  A shallow embedding of \<^verbatim>\<open>Put\<close>, \<^verbatim>\<open>update\<close>, \<^verbatim>\<open>getPathLength\<close> and
  \<^verbatim>\<open>upsert\<close> of \<^verbatim>\<open>merkle/put.go\<close>. Go byte slices and Go strings are both
  \<open>char list\<close> (a \<open>char\<close> is one byte). Go's \<^verbatim>\<open>int\<close> is \<open>int\<close>: every
  integer of the file is a length, or a length plus or minus a count of nodes, so
  the 64-bit range is never left.

  The node types, the path stack, the two stores, \<^verbatim>\<open>Get\<close>, the hash functions
  and \<^verbatim>\<open>commonPrefix\<close> are used by \<^verbatim>\<open>put.go\<close> and declared elsewhere in the
  package. The operations whose behaviour decides nothing here but the order and
  the arguments of their calls are parameters (the record \<open>env\<close>); every call the
  file makes to a store or to \<^verbatim>\<open>Get\<close> is recorded, in order, in a trace.
\<close>

subsection \<open>Data\<close>

type_synonym bytes = string

text \<open>
  Modelled from the spec: the node types (spec 3), which \<^verbatim>\<open>put.go\<close> uses and
  does not declare. A short node (leaf or extension) has a path and a value; the
  value of an extension is the hash of its child. A branch maps a one-nibble
  string to the hash of a child and has a value of its own; the nil slice and the
  empty slice are both \<open>[]\<close>.
\<close>

datatype node =
    Leaf string bytes
  | Ext string bytes
  | Branch "(string \<times> bytes) list" bytes

datatype error =
    InvalidUserDataError
  | InvalidPosValue
  | UnexpectedNodeType
  | CollaboratorError string

text \<open>A Go function either returns or panics (a slice or an index out of range).\<close>

datatype 'a outcome = Returns 'a | Panics

datatype event =
    PersistUserValue bytes
  | GetCall bytes
  | RemoveNodeFromStore node
  | PersistNode node

text \<open>
  The tree object: the root node (\<open>None\<close> is Go's nil), the node store, the
  store of long user values, and the trace of the calls made so far.
\<close>

record merkleTree =
  root :: "node option"
  treeData :: "(bytes \<times> node) list"
  userData :: "(bytes \<times> bytes) list"
  trace :: "event list"

text \<open>
  The collaborators of \<^verbatim>\<open>put.go\<close>. \<open>Get\<close> returns the value found, the path stack
  (top first, see \<open>toSlice\<close>) and an error; it reads the tree and changes nothing
  (spec 4.3: traversal never mutates state and performs no writes). The store
  operations work on their own store only. \<open>removeNodeFromStore\<close> is given an
  error result although no call site of \<^verbatim>\<open>put.go\<close> reads one.
\<close>

record env =
  Sha256 :: "bytes \<Rightarrow> bytes"
  getNodeHash :: "node \<Rightarrow> error + bytes"
  Get :: "bytes \<Rightarrow> merkleTree \<Rightarrow> bytes option \<times> node list \<times> error option"
  persistUserValue :: "bytes \<Rightarrow> (bytes \<times> bytes) list \<Rightarrow> error option \<times> (bytes \<times> bytes) list"
  persistNode :: "node \<Rightarrow> (bytes \<times> node) list \<Rightarrow> error option \<times> (bytes \<times> node) list"
  removeNodeFromStore :: "node \<Rightarrow> (bytes \<times> node) list \<Rightarrow> error option \<times> (bytes \<times> node) list"
  newLeafNodeContainer :: "string \<Rightarrow> bytes \<Rightarrow> error + node"
  newExtNodeContainer :: "string \<Rightarrow> bytes \<Rightarrow> error + node"
  newBranchNodeContainer :: "(string \<times> bytes) list \<Rightarrow> bytes \<Rightarrow> error + node"

subsection \<open>Go primitives\<close>

text \<open>\<^verbatim>\<open>hex.EncodeToString\<close>: two lower-case hex digits for each byte.\<close>

definition hexDigit :: "nat \<Rightarrow> char" where
  "hexDigit n = ''0123456789abcdef'' ! (n mod 16)"

fun EncodeToString :: "bytes \<Rightarrow> string" where
  "EncodeToString [] = []"
| "EncodeToString (c # cs) =
     hexDigit (of_char c div 16) # hexDigit (of_char c mod 16) # EncodeToString cs"

text \<open>\<^verbatim>\<open>k[pos:]\<close> panics when \<open>pos\<close> is negative or beyond the length.\<close>

definition sliceFrom :: "string \<Rightarrow> int \<Rightarrow> string outcome" where
  "sliceFrom k pos =
     (if pos < 0 \<or> int (length k) < pos then Panics else Returns (drop (nat pos) k))"

text \<open>
  \<^verbatim>\<open>string(b)\<close> for a byte \<open>b\<close>: the UTF-8 encoding of the code point \<open>b\<close>, one
  byte below 128 and two bytes from 128 on.
\<close>

definition runeString :: "char \<Rightarrow> string" where
  "runeString c =
     (let n = (of_char c :: nat)
      in if n < 128 then [c] else [char_of (192 + n div 64), char_of (128 + n mod 64)])"

subsection \<open>Nodes and the stack\<close>

text \<open>
  Modelled from the spec: the type tests of a node, \<^verbatim>\<open>isLeaf\<close>, \<^verbatim>\<open>isExt\<close> and
  \<^verbatim>\<open>isBranch\<close>.
\<close>

fun isLeaf :: "node \<Rightarrow> bool" where
  "isLeaf (Leaf p v) = True"
| "isLeaf _ = False"

fun isExt :: "node \<Rightarrow> bool" where
  "isExt (Ext p c) = True"
| "isExt _ = False"

fun isBranch :: "node \<Rightarrow> bool" where
  "isBranch (Branch cs v) = True"
| "isBranch _ = False"

text \<open>
  Modelled from the spec: \<^verbatim>\<open>getShortNode().getPath()\<close> and
  \<^verbatim>\<open>getShortNode().getValue()\<close>, the stored path and the value of a short node.
  \<^verbatim>\<open>put.go\<close> calls them on leaves and extensions only; the branch equations are
  never used.
\<close>

fun getPath :: "node \<Rightarrow> string" where
  "getPath (Leaf p v) = p"
| "getPath (Ext p c) = p"
| "getPath (Branch cs v) = []"

fun getValue :: "node \<Rightarrow> bytes" where
  "getValue (Leaf p v) = v"
| "getValue (Ext p c) = c"
| "getValue (Branch cs v) = v"

text \<open>
  Modelled from the spec: the setters of the node types, which \<^verbatim>\<open>put.go\<close> calls
  and does not define. \<^verbatim>\<open>setExtChild\<close> sets the child reference of an extension
  (spec 4.6: set its child reference to that child's hash); the spec gives it no
  effect on a leaf or a branch, and it has none here. \<^verbatim>\<open>setPath\<close> replaces the
  stored path of a short node (spec 4.5: shrink its stored path), \<^verbatim>\<open>setValue\<close>
  replaces the value of a branch, and \<^verbatim>\<open>addBranchChild\<close> attaches the child's current
  hash under a nibble (spec 4.6), replacing an entry already there. The nodes are
  values here; where the Go code changes a node that is already on the stack, the
  model changes the stack entry.
\<close>

fun setExtChild :: "bytes \<Rightarrow> node \<Rightarrow> node" where
  "setExtChild v (Leaf p w) = Leaf p w"
| "setExtChild v (Ext p c) = Ext p v"
| "setExtChild v (Branch cs w) = Branch cs w"

fun setPath :: "string \<Rightarrow> node \<Rightarrow> node" where
  "setPath q (Leaf p v) = Leaf q v"
| "setPath q (Ext p c) = Ext q c"
| "setPath q (Branch cs v) = Branch cs v"

fun setValue :: "bytes \<Rightarrow> node \<Rightarrow> node" where
  "setValue v (Branch cs w) = Branch cs v"
| "setValue v n = n"

fun addBranchChild :: "env \<Rightarrow> string \<Rightarrow> node \<Rightarrow> node \<Rightarrow> node" where
  "addBranchChild env idx child (Branch cs v) =
     (case getNodeHash env child of
        Inl e \<Rightarrow> Branch cs v
      | Inr h \<Rightarrow> Branch (AList.update idx h cs) v)"
| "addBranchChild env idx child n = n"

text \<open>
  Modelled from the spec: \<^verbatim>\<open>commonPrefix\<close> (spec 4.7), the longest shared leading
  subsequence of two nibble sequences.
\<close>

fun commonPrefix :: "string \<Rightarrow> string \<Rightarrow> string" where
  "commonPrefix (x # xs) (y # ys) = (if x = y then x # commonPrefix xs ys else [])"
| "commonPrefix xs ys = []"

text \<open>
  Modelled from the spec: the stack. A stack is the list of its nodes with the
  top first, and \<^verbatim>\<open>toSlice\<close> returns that list: \<^verbatim>\<open>update\<close> reads the slice from
  index 0 and expects the leaf first ("leaf as at head", spec 4.6 "walks the stack
  top-down"), and \<^verbatim>\<open>Put\<close> takes the last element of the slice as the new root.
  \<^verbatim>\<open>push\<close> is \<open>#\<close> and \<^verbatim>\<open>pop\<close> splits the list.
\<close>

definition toSlice :: "node list \<Rightarrow> node list" where
  "toSlice s = s"

subsection \<open>Calls to the stores\<close>

definition mt_persistUserValue :: "env \<Rightarrow> bytes \<Rightarrow> merkleTree \<Rightarrow> error option \<times> merkleTree" where
  "mt_persistUserValue env v mt =
     (let (err, ud) = persistUserValue env v (userData mt)
      in (err, mt\<lparr>userData := ud, trace := trace mt @ [PersistUserValue v]\<rparr>))"

definition mt_persistNode :: "env \<Rightarrow> node \<Rightarrow> merkleTree \<Rightarrow> error option \<times> merkleTree" where
  "mt_persistNode env n mt =
     (let (err, td) = persistNode env n (treeData mt)
      in (err, mt\<lparr>treeData := td, trace := trace mt @ [PersistNode n]\<rparr>))"

definition mt_removeNodeFromStore :: "env \<Rightarrow> node \<Rightarrow> merkleTree \<Rightarrow> error option \<times> merkleTree" where
  "mt_removeNodeFromStore env n mt =
     (let (err, td) = removeNodeFromStore env n (treeData mt)
      in (err, mt\<lparr>treeData := td, trace := trace mt @ [RemoveNodeFromStore n]\<rparr>))"

definition mt_Get :: "env \<Rightarrow> bytes \<Rightarrow> merkleTree \<Rightarrow> (bytes option \<times> node list \<times> error option) \<times> merkleTree" where
  "mt_Get env k mt = (Get env k mt, mt\<lparr>trace := trace mt @ [GetCall k]\<rparr>)"

subsection \<open>getPathLength (put.go lines 127-138)\<close>

definition getPathLength :: "node list \<Rightarrow> int" where
  "getPathLength s =
     foldl (\<lambda>l n. if isBranch n then l + 1
                  else if isExt n then l + int (length (getPath n))
                  else l) 0 (toSlice s)"

subsection \<open>update (put.go lines 67-123)\<close>

text \<open>
  The loop over \<^verbatim>\<open>items\<close>: \<open>lastRoot\<close> and \<open>pos\<close> are the loop's variables, \<open>seen\<close>
  the nodes already processed (as changed), so that the stack after the call is
  \<open>seen\<close> followed by the nodes not reached. The result of \<^verbatim>\<open>mt.persistNode(n)\<close> at
  line 118 is not read. The \<^verbatim>\<open>default\<close> case of the switch has no node variant.
\<close>

fun update_loop ::
  "env \<Rightarrow> string \<Rightarrow> node list \<Rightarrow> node option \<Rightarrow> int \<Rightarrow> node list \<Rightarrow> merkleTree
     \<Rightarrow> error option \<times> node list \<times> merkleTree" where
  "update_loop env k [] lastRoot pos seen mt = (None, seen, mt)"
| "update_loop env k (n # items) lastRoot pos seen mt =
     (case n of
        Branch cs val \<Rightarrow>
          (case lastRoot of
             None \<Rightarrow>
               update_loop env k items (Some n) pos (seen @ [n]) (snd (mt_persistNode env n mt))
           | Some lr \<Rightarrow>
               if pos < 0 \<or> pos = int (length k) then (Some InvalidPosValue, seen @ n # items, mt)
               else
                 let idx = runeString (k ! nat pos);
                     n' = addBranchChild env idx lr n
                 in update_loop env k items (Some n') (pos - 1) (seen @ [n'])
                      (snd (mt_persistNode env n' mt)))
      | Ext p c \<Rightarrow>
          (case lastRoot of
             None \<Rightarrow>
               update_loop env k items (Some n) (pos - int (length p)) (seen @ [n])
                 (snd (mt_persistNode env n mt))
           | Some lr \<Rightarrow>
               (case getNodeHash env lr of
                  Inl e \<Rightarrow> (Some e, seen @ n # items, mt)
                | Inr hash \<Rightarrow>
                    let n' = setExtChild hash n
                    in update_loop env k items (Some n') (pos - int (length p)) (seen @ [n'])
                         (snd (mt_persistNode env n' mt))))
      | Leaf p val \<Rightarrow>
          update_loop env k items (Some n) (pos - int (length p)) (seen @ [n])
            (snd (mt_persistNode env n mt)))"

definition update :: "env \<Rightarrow> string \<Rightarrow> node list \<Rightarrow> merkleTree
     \<Rightarrow> error option \<times> node list \<times> merkleTree" where
  "update env k s mt =
     (if length s = 0 then (None, s, mt)
      else update_loop env k (toSlice s) None (int (length k) - 1) [] mt)"

subsection \<open>upsert (put.go lines 145-270)\<close>

text \<open>
  Case 4, after the new branch has been pushed (lines 229-269). \<open>lastNode\<close> is the
  node popped, \<open>lastNodePath\<close> what is left of its path, \<open>s\<close> the stack below the
  new branch. The result of \<^verbatim>\<open>mt.update(k, s)\<close> at line 267 is not read.
\<close>

definition upsert_fork ::
  "env \<Rightarrow> int \<Rightarrow> string \<Rightarrow> bytes \<Rightarrow> node \<Rightarrow> string \<Rightarrow> node \<Rightarrow> node list \<Rightarrow> merkleTree
     \<Rightarrow> (error option \<times> node list \<times> merkleTree) outcome" where
  "upsert_fork env pos k v lastNode lastNodePath newBranch s mt =
     (let (failed, newBranch1, mt1) =
            (if length lastNodePath > 0 then
               let branchChildKey = runeString (hd lastNodePath);
                   lastNodePath1 = tl lastNodePath
               in if length lastNodePath1 > 0 \<or> isLeaf lastNode then
                    let mt' = snd (mt_removeNodeFromStore env lastNode mt);
                        lastNode' = setPath lastNodePath1 lastNode;
                        nb = addBranchChild env branchChildKey lastNode' newBranch;
                        (err, mt'') = mt_persistNode env lastNode' mt'
                    in (err, nb, mt'')
                  else
                    let mt' = snd (mt_removeNodeFromStore env lastNode mt)
                    in (None, setValue (getValue lastNode) newBranch, mt')
             else
               let mt' = snd (mt_removeNodeFromStore env lastNode mt)
               in if isLeaf lastNode then (None, setValue (getValue lastNode) newBranch, mt')
                  else (None, newBranch, mt'))
      in case failed of
           Some err \<Rightarrow> Returns (Some err, newBranch1 # s, mt1)
         | None \<Rightarrow>
             if pos < int (length k) then
               (case sliceFrom k (pos + 1) of
                  Panics \<Rightarrow> Panics
                | Returns suffix \<Rightarrow>
                    (case newLeafNodeContainer env suffix v of
                       Inl err \<Rightarrow> Returns (Some err, newBranch1 # s, mt1)
                     | Inr newLeaf \<Rightarrow>
                         let (uerr, s', mt2) = update env k (newLeaf # newBranch1 # s) mt1
                         in Returns (None, s', mt2)))
             else
               let (uerr, s', mt2) = update env k (newBranch1 # s) mt1
               in Returns (None, s', mt2))"

text \<open>Case 4 from its start (lines 200-227): \<open>s\<close> is the stack after the pop.\<close>

definition upsert_split ::
  "env \<Rightarrow> int \<Rightarrow> string \<Rightarrow> bytes \<Rightarrow> node \<Rightarrow> node list \<Rightarrow> merkleTree
     \<Rightarrow> (error option \<times> node list \<times> merkleTree) outcome" where
  "upsert_split env pos k v lastNode s mt =
     (let lastNodePath = getPath lastNode
      in case sliceFrom k pos of
           Panics \<Rightarrow> Panics
         | Returns rest \<Rightarrow>
             let cp = commonPrefix lastNodePath rest;
                 cpl = length cp
             in if cpl > 0 then
                  (case newExtNodeContainer env (take cpl lastNodePath) [] of
                     Inl err \<Rightarrow> Returns (Some err, s, mt)
                   | Inr newExtNode \<Rightarrow>
                       let lastNodePath1 =
                             (if cpl < length lastNodePath then drop cpl lastNodePath else [])
                       in (case newBranchNodeContainer env [] [] of
                             Inl err \<Rightarrow> Returns (Some err, newExtNode # s, mt)
                           | Inr newBranch \<Rightarrow>
                               upsert_fork env (pos + int cpl) k v lastNode lastNodePath1
                                 newBranch (newExtNode # s) mt))
                else
                  (case newBranchNodeContainer env [] [] of
                     Inl err \<Rightarrow> Returns (Some err, s, mt)
                   | Inr newBranch \<Rightarrow>
                       upsert_fork env pos k v lastNode lastNodePath newBranch s mt))"

text \<open>
  Case 3 (lines 177-198): the node popped is a branch. In the else branch the
  branch's value is set before \<^verbatim>\<open>removeNodeFromStore\<close> is called, so the call
  receives the branch as changed. The result of \<^verbatim>\<open>mt.update(k, s)\<close> at line 196
  is not read.
\<close>

definition upsert_branch ::
  "env \<Rightarrow> int \<Rightarrow> string \<Rightarrow> bytes \<Rightarrow> node \<Rightarrow> node list \<Rightarrow> merkleTree
     \<Rightarrow> (error option \<times> node list \<times> merkleTree) outcome" where
  "upsert_branch env pos k v lastNode s mt =
     (if pos < int (length k) then
        (case sliceFrom k (pos + 1) of
           Panics \<Rightarrow> Panics
         | Returns suffix \<Rightarrow>
             (case newLeafNodeContainer env suffix v of
                Inl err \<Rightarrow> Returns (Some err, lastNode # s, mt)
              | Inr newLeaf \<Rightarrow>
                  let (uerr, s', mt1) = update env k (newLeaf # lastNode # s) mt
                  in Returns (None, s', mt1)))
      else
        let lastNode' = setValue v lastNode;
            mt1 = snd (mt_removeNodeFromStore env lastNode' mt);
            (uerr, s', mt2) = update env k (lastNode' # s) mt1
        in Returns (None, s', mt2))"

text \<open>
  The whole of \<^verbatim>\<open>upsert\<close>. Case 1 (lines 148-156) reads no result of
  \<^verbatim>\<open>mt.persistNode(newLeaf)\<close>; case 2 (lines 161-175) calls \<^verbatim>\<open>setExtChild\<close> on
  the leaf at line 170 and reads no result of \<^verbatim>\<open>mt.update(k, s)\<close>. A leaf that
  fails the test of case 2 falls through to case 4.
\<close>

definition upsert ::
  "env \<Rightarrow> int \<Rightarrow> string \<Rightarrow> bytes \<Rightarrow> node list \<Rightarrow> merkleTree
     \<Rightarrow> (error option \<times> node list \<times> merkleTree) outcome" where
  "upsert env pos k v s mt =
     (case s of
        [] \<Rightarrow>
          (case newLeafNodeContainer env k v of
             Inl err \<Rightarrow> Returns (Some err, s, mt)
           | Inr newLeaf \<Rightarrow> Returns (None, [newLeaf], snd (mt_persistNode env newLeaf mt)))
      | lastNode # s1 \<Rightarrow>
          if isLeaf lastNode then
            (case sliceFrom k (getPathLength s1) of
               Panics \<Rightarrow> Panics
             | Returns rest \<Rightarrow>
                 let leafPath = getPath lastNode;
                     cp = commonPrefix leafPath rest
                 in if length cp = length leafPath \<and> pos = int (length k) then
                      let mt1 = snd (mt_removeNodeFromStore env lastNode mt);
                          lastNode' = setExtChild v lastNode;
                          (uerr, s', mt2) = update env k (lastNode' # s1) mt1
                      in Returns (None, s', mt2)
                    else upsert_split env pos k v lastNode s1 mt)
          else if isBranch lastNode then upsert_branch env pos k v lastNode s1 mt
          else upsert_split env pos k v lastNode s1 mt)"

subsection \<open>Put (put.go lines 16-62)\<close>

text \<open>
  Lines 36-61, with the user value already computed; \<open>Put_finish\<close> is lines 54-61,
  applied to what \<^verbatim>\<open>upsert\<close> did. The error that \<^verbatim>\<open>Get\<close> returns is assigned
  at line 38 and overwritten at line 53 without being read.
  \<^verbatim>\<open>res != nil && bytes.Equal(res, v)\<close> compares with \<open>v\<close>, the value as the
  caller gave it, not with the user value.
\<close>

definition Put_finish ::
  "(error option \<times> node list \<times> merkleTree) outcome \<Rightarrow> (error option \<times> merkleTree) outcome" where
  "Put_finish r =
     (case r of
        Panics \<Rightarrow> Panics
      | Returns (Some err, s, mt) \<Rightarrow> Returns (Some err, mt)
      | Returns (None, s, mt) \<Rightarrow>
          (case toSlice s of
             [] \<Rightarrow> Panics
           | n # ns \<Rightarrow> Returns (None, mt\<lparr>root := Some (last (n # ns))\<rparr>)))"

definition Put_insert :: "env \<Rightarrow> bytes \<Rightarrow> bytes \<Rightarrow> bytes \<Rightarrow> merkleTree
     \<Rightarrow> (error option \<times> merkleTree) outcome" where
  "Put_insert env k v userValue mt =
     (let ((res, stack, err), mt1) = mt_Get env k mt
      in if res \<noteq> None \<and> the res = v then Returns (None, mt1)
         else
           let hexKey = EncodeToString k;
               pos = getPathLength stack
           in Put_finish (upsert env pos hexKey userValue stack mt1))"

definition Put :: "env \<Rightarrow> bytes \<Rightarrow> bytes \<Rightarrow> merkleTree \<Rightarrow> (error option \<times> merkleTree) outcome" where
  "Put env k v mt =
     (if length v = 0 \<or> length k = 0 then Returns (Some InvalidUserDataError, mt)
      else if length v > 32 then
        (case mt_persistUserValue env v mt of
           (Some err, mt1) \<Rightarrow> Returns (Some err, mt1)
         | (None, mt1) \<Rightarrow> Put_insert env k v (Sha256 env v) mt1)
      else Put_insert env k v v mt)"

subsection \<open>Observations used in the theorems\<close>

text \<open>The three values of \<^verbatim>\<open>pb.NodeType\<close> that the switch of \<^verbatim>\<open>update\<close> tells apart.\<close>

datatype NodeType = NodeType_branch | NodeType_extension | NodeType_leaf

fun getNodeType :: "node \<Rightarrow> NodeType" where
  "getNodeType (Leaf p v) = NodeType_leaf"
| "getNodeType (Ext p c) = NodeType_extension"
| "getNodeType (Branch cs v) = NodeType_branch"

fun isPersistUserValue :: "event \<Rightarrow> bool" where
  "isPersistUserValue (PersistUserValue v) = True"
| "isPersistUserValue e = False"

fun isRemoveNodeFromStore :: "event \<Rightarrow> bool" where
  "isRemoveNodeFromStore (RemoveNodeFromStore n) = True"
| "isRemoveNodeFromStore e = False"

fun isNodeStoreCall :: "event \<Rightarrow> bool" where
  "isNodeStoreCall (RemoveNodeFromStore n) = True"
| "isNodeStoreCall (PersistNode n) = True"
| "isNodeStoreCall e = False"

text \<open>The calls made between two states, the later one's trace extending the earlier one's.\<close>

definition newEvents :: "merkleTree \<Rightarrow> merkleTree \<Rightarrow> event list" where
  "newEvents mt mt' = drop (length (trace mt)) (trace mt')"

text \<open>
  From \<open>mt\<close> to \<open>mt'\<close> the value store is as it was, the trace has grown, and no
  call recorded in between is a write to the value store.
\<close>

definition valueStoreUntouched :: "merkleTree \<Rightarrow> merkleTree \<Rightarrow> bool" where
  "valueStoreUntouched mt mt' \<longleftrightarrow>
     userData mt' = userData mt \<and>
     take (length (trace mt)) (trace mt') = trace mt \<and>
     filter isPersistUserValue (newEvents mt mt') = []"

text \<open>The hash of the root node, the commitment to the whole tree.\<close>

definition rootHash :: "env \<Rightarrow> merkleTree \<Rightarrow> (error + bytes) option" where
  "rootHash env mt = map_option (getNodeHash env) (root mt)"

text \<open>
  The count of matched nibbles in the words of the specification (4.4): a branch
  contributes one nibble, an extension or a leaf the length of its stored path.
\<close>

fun specContribution :: "node \<Rightarrow> int" where
  "specContribution (Branch cs v) = 1"
| "specContribution (Ext p c) = int (length p)"
| "specContribution (Leaf p v) = int (length p)"

definition specPathLength :: "node list \<Rightarrow> int" where
  "specPathLength s = sum_list (map specContribution s)"

text \<open>What \<^verbatim>\<open>getPathLength\<close> adds for a node: nothing for a leaf.\<close>

fun contribution :: "node \<Rightarrow> int" where
  "contribution (Branch cs v) = 1"
| "contribution (Ext p c) = int (length p)"
| "contribution (Leaf p v) = 0"

subsection \<open>A concrete environment\<close>

text \<open>
  Modelled from the spec: \<^verbatim>\<open>Get\<close> (spec 4.3), which \<^verbatim>\<open>put.go\<close> calls and does
  not define.
  \<open>findValue\<close> descends from a node with the nibbles still to match: a branch
  consumes one nibble and follows the child stored under it; an extension whose
  path leads the remaining nibbles descends through its child; a leaf matches when
  its path is the remaining nibbles. Every node visited is pushed on the stack.
  A hash that the node store does not resolve is a store error.
\<close>

function findValue ::
  "(bytes \<times> node) list \<Rightarrow> node \<Rightarrow> string \<Rightarrow> node list
     \<Rightarrow> bytes option \<times> node list \<times> error option" where
  "findValue td n rest s =
     (case n of
        Leaf p val \<Rightarrow> (if p = rest then Some val else None, n # s, None)
      | Ext p c \<Rightarrow>
          if p \<noteq> [] \<and> take (length p) rest = p then
            (case map_of td c of
               None \<Rightarrow> (None, n # s, Some (CollaboratorError ''node not found''))
             | Some child \<Rightarrow> findValue td child (drop (length p) rest) (n # s))
          else (None, n # s, None)
      | Branch cs val \<Rightarrow>
          (case rest of
             [] \<Rightarrow> (if val = [] then None else Some val, n # s, None)
           | x # rest' \<Rightarrow>
               (case map_of cs [x] of
                  None \<Rightarrow> (None, n # s, None)
                | Some h \<Rightarrow>
                    (case map_of td h of
                       None \<Rightarrow> (None, n # s, Some (CollaboratorError ''node not found''))
                     | Some child \<Rightarrow> findValue td child rest' (n # s)))))"
  by pat_completeness auto
termination
proof (relation "measure (\<lambda>(td, n, rest, s). length rest)", goal_cases)
  case 1
  show ?case by simp
next
  case (2 td n rest s p c child)
  then have eq: "take (length p) rest = p" and ne: "p \<noteq> []"
    by auto
  have "length (take (length p) rest) = length p"
    using eq by simp
  then have "length p \<le> length rest"
    by simp
  with ne show ?case
    by (cases p) auto
next
  case 3
  then show ?case by simp
qed

text \<open>
  Modelled from the spec: the value that \<^verbatim>\<open>Get\<close> returns. The round trip of
  spec 8 has \<^verbatim>\<open>Get\<close> return a long value itself, after a look-up in the value
  store: a user value that is a key of the value store is replaced by the value
  stored there.
\<close>

definition specGet :: "bytes \<Rightarrow> merkleTree \<Rightarrow> bytes option \<times> node list \<times> error option" where
  "specGet k mt =
     (case root mt of
        None \<Rightarrow> (None, [], None)
      | Some r \<Rightarrow>
          (case findValue (treeData mt) r (EncodeToString k) [] of
             (uv, s, Some e) \<Rightarrow> (None, [], Some e)
           | (None, s, None) \<Rightarrow> (None, s, None)
           | (Some u, s, None) \<Rightarrow>
               (case map_of (userData mt) u of
                  None \<Rightarrow> (Some u, s, None)
                | Some long \<Rightarrow> (Some long, s, None))))"

text \<open>
  Modelled from the spec: stand-ins for the two hash functions, for running the
  code on concrete trees. The hash of a node is its serialization itself, so that
  different nodes have different hashes; the digest of a value has 32 bytes.
\<close>

fun serialize :: "node \<Rightarrow> bytes" where
  "serialize (Leaf p v) = ''L('' @ p @ '','' @ v @ '')''"
| "serialize (Ext p c) = ''E('' @ p @ '','' @ c @ '')''"
| "serialize (Branch cs v) =
     ''B('' @ concat (map (\<lambda>(i, h). i @ ''='' @ h @ '';'') cs) @ '','' @ v @ '')''"

definition digest32 :: "bytes \<Rightarrow> bytes" where
  "digest32 v = take 32 (rev v @ replicate 32 CHR ''0'')"

text \<open>
  Modelled from the spec: the stores (spec 4.1, 4.2) and the node constructors
  (spec 4.5). \<^verbatim>\<open>persist\<close> stores under the content hash, \<^verbatim>\<open>remove\<close> deletes the
  entry under the hash of the node it is given, and none of them fails.
\<close>

definition specEnv :: env where
  "specEnv = \<lparr>
     Sha256 = digest32,
     getNodeHash = (\<lambda>n. Inr (serialize n)),
     Get = specGet,
     persistUserValue = (\<lambda>v ud. (None, AList.update (digest32 v) v ud)),
     persistNode = (\<lambda>n td. (None, AList.update (serialize n) n td)),
     removeNodeFromStore = (\<lambda>n td. (None, AList.delete (serialize n) td)),
     newLeafNodeContainer = (\<lambda>p v. Inr (Leaf p v)),
     newExtNodeContainer = (\<lambda>p c. Inr (Ext p c)),
     newBranchNodeContainer = (\<lambda>cs v. Inr (Branch cs v)) \<rparr>"

text \<open>The same environment with a node store whose \<^verbatim>\<open>persist\<close> always fails.\<close>

definition failingEnv :: env where
  "failingEnv = specEnv\<lparr>persistNode := (\<lambda>n td. (Some (CollaboratorError ''persist failed''), td))\<rparr>"

definition emptyTree :: merkleTree where
  "emptyTree = \<lparr> root = None, treeData = [], userData = [], trace = [] \<rparr>"

text \<open>
  The tree after \<^verbatim>\<open>Put("a1", "hello")\<close> on the empty tree (spec 8, concrete
  scenario): a single leaf, with an empty trace to start from.
\<close>

definition treeA1 :: merkleTree where
  "treeA1 = \<lparr> root = Some (Leaf ''6131'' ''hello''),
              treeData = [(''L(6131,hello)'', Leaf ''6131'' ''hello'')],
              userData = [],
              trace = [] \<rparr>"

text \<open>
  Three more trees that \<^verbatim>\<open>Put\<close> builds from the empty tree in this environment,
  each with an empty trace: after keys a1 and b1, after key a1 with a value of 33
  bytes, and after keys a1 and a2.
\<close>

definition treeAB :: merkleTree where
  "treeAB = \<lparr> root = Some (Ext ''6'' ''B(1=L(31,hello);2=L(31,world);,)''),
              treeData =
                [(''L(31,hello)'', Leaf ''31'' ''hello''),
                 (''L(31,world)'', Leaf ''31'' ''world''),
                 (''B(1=L(31,hello);2=L(31,world);,)'',
                  Branch [(''1'', ''L(31,hello)''), (''2'', ''L(31,world)'')] []),
                 (''E(6,B(1=L(31,hello);2=L(31,world);,))'',
                  Ext ''6'' ''B(1=L(31,hello);2=L(31,world);,)'')],
              userData = [],
              trace = [] \<rparr>"

definition longValue :: bytes where
  "longValue = ''0123456789abcdefghijklmnopqrstuvw''"

definition treeLong :: merkleTree where
  "treeLong = \<lparr> root = Some (Leaf ''6131'' ''wvutsrqponmlkjihgfedcba987654321''),
                treeData = [(''L(6131,wvutsrqponmlkjihgfedcba987654321)'',
                             Leaf ''6131'' ''wvutsrqponmlkjihgfedcba987654321'')],
                userData = [(''wvutsrqponmlkjihgfedcba987654321'', longValue)],
                trace = [] \<rparr>"

definition treeA12 :: merkleTree where
  "treeA12 = \<lparr> root = Some (Ext ''613'' ''B(1=L(,hello);2=L(,world);,)''),
               treeData =
                 [(''L(,hello)'', Leaf [] ''hello''),
                  (''L(,world)'', Leaf [] ''world''),
                  (''B(1=L(,hello);2=L(,world);,)'',
                   Branch [(''1'', ''L(,hello)''), (''2'', ''L(,world)'')] []),
                  (''E(613,B(1=L(,hello);2=L(,world);,))'',
                   Ext ''613'' ''B(1=L(,hello);2=L(,world);,)'')],
               userData = [],
               trace = [] \<rparr>"

text \<open>What \<^verbatim>\<open>Put("c1", "x")\<close> makes of \<open>treeAB\<close>, with the trace of that call.\<close>

definition treeABC :: merkleTree where
  "treeABC = \<lparr> root = Some (Ext ''6'' ''B(1=L(31,hello);2=L(31,world);3=L(1,x);,)''),
               treeData =
                 [(''L(31,hello)'', Leaf ''31'' ''hello''),
                  (''L(31,world)'', Leaf ''31'' ''world''),
                  (''B(1=L(31,hello);2=L(31,world);,)'',
                   Branch [(''1'', ''L(31,hello)''), (''2'', ''L(31,world)'')] []),
                  (''E(6,B(1=L(31,hello);2=L(31,world);,))'',
                   Ext ''6'' ''B(1=L(31,hello);2=L(31,world);,)''),
                  (''L(1,x)'', Leaf ''1'' ''x''),
                  (''B(1=L(31,hello);2=L(31,world);3=L(1,x);,)'',
                   Branch [(''1'', ''L(31,hello)''), (''2'', ''L(31,world)''),
                           (''3'', ''L(1,x)'')] []),
                  (''E(6,B(1=L(31,hello);2=L(31,world);3=L(1,x);,))'',
                   Ext ''6'' ''B(1=L(31,hello);2=L(31,world);3=L(1,x);,)'')],
               userData = [],
               trace =
                 [GetCall ''c1'', PersistNode (Leaf ''1'' ''x''),
                  PersistNode
                    (Branch [(''1'', ''L(31,hello)''), (''2'', ''L(31,world)''),
                             (''3'', ''L(1,x)'')] []),
                  PersistNode (Ext ''6'' ''B(1=L(31,hello);2=L(31,world);3=L(1,x);,)'')] \<rparr>"

text \<open>
  The tree that \<^verbatim>\<open>Put("a1", "world")\<close> makes of \<open>treeA1\<close>, with the trace of
  that call.
\<close>

definition treeA1w :: merkleTree where
  "treeA1w = \<lparr> root = Some (Ext ''6131'' ''B(,hello)''),
               treeData = [(''B(,hello)'', Branch [] ''hello''),
                           (''E(6131,B(,hello))'', Ext ''6131'' ''B(,hello)'')],
               userData = [],
               trace = [GetCall ''a1'', RemoveNodeFromStore (Leaf ''6131'' ''hello''),
                        PersistNode (Branch [] ''hello''),
                        PersistNode (Ext ''6131'' ''B(,hello)'')] \<rparr>"

text \<open>What a second \<^verbatim>\<open>Put("a1", "world")\<close> makes of \<open>treeA1w\<close>.\<close>

definition treeA1ww :: merkleTree where
  "treeA1ww = \<lparr> root = Some (Ext ''6131'' ''B(,world)''),
                treeData = [(''B(,hello)'', Branch [] ''hello''),
                            (''E(6131,B(,hello))'', Ext ''6131'' ''B(,hello)''),
                            (''B(,world)'', Branch [] ''world''),
                            (''E(6131,B(,world))'', Ext ''6131'' ''B(,world)'')],
                userData = [],
                trace = trace treeA1w @
                        [GetCall ''a1'', RemoveNodeFromStore (Branch [] ''world''),
                         PersistNode (Branch [] ''world''),
                         PersistNode (Ext ''6131'' ''B(,world)'')] \<rparr>"

text \<open>What \<^verbatim>\<open>Put("a1", "again")\<close> makes of \<open>treeA12\<close>, with the trace of that call.\<close>

definition treeA12again :: merkleTree where
  "treeA12again = \<lparr> root = Some (Ext ''613'' ''B(1=L(,hello);2=L(,world);,)''),
                    treeData =
                      [(''L(,world)'', Leaf [] ''world''),
                       (''B(1=L(,hello);2=L(,world);,)'',
                        Branch [(''1'', ''L(,hello)''), (''2'', ''L(,world)'')] []),
                       (''E(613,B(1=L(,hello);2=L(,world);,))'',
                        Ext ''613'' ''B(1=L(,hello);2=L(,world);,)''),
                       (''L(,hello)'', Leaf [] ''hello'')],
                    userData = [],
                    trace =
                      [GetCall ''a1'', RemoveNodeFromStore (Leaf [] ''hello''),
                       PersistNode (Leaf [] ''hello''),
                       PersistNode
                         (Branch [(''1'', ''L(,hello)''), (''2'', ''L(,world)'')] []),
                       PersistNode (Ext ''613'' ''B(1=L(,hello);2=L(,world);,)'')] \<rparr>"

section \<open>What update and upsert leave alone\<close>

lemma valueStoreUntouched_refl: "valueStoreUntouched mt mt"
  by (simp add: valueStoreUntouched_def newEvents_def)

lemma valueStoreUntouched_iff:
  "valueStoreUntouched mt mt' \<longleftrightarrow>
     userData mt' = userData mt \<and>
     (\<exists>evs. trace mt' = trace mt @ evs \<and> filter isPersistUserValue evs = [])"
proof
  assume h: "valueStoreUntouched mt mt'"
  then have t: "take (length (trace mt)) (trace mt') = trace mt"
    by (simp add: valueStoreUntouched_def)
  have "trace mt' = take (length (trace mt)) (trace mt') @ drop (length (trace mt)) (trace mt')"
    by simp
  with t have "trace mt' = trace mt @ newEvents mt mt'"
    by (simp add: newEvents_def)
  with h show "userData mt' = userData mt \<and>
     (\<exists>evs. trace mt' = trace mt @ evs \<and> filter isPersistUserValue evs = [])"
    unfolding valueStoreUntouched_def by blast
next
  assume "userData mt' = userData mt \<and>
     (\<exists>evs. trace mt' = trace mt @ evs \<and> filter isPersistUserValue evs = [])"
  then show "valueStoreUntouched mt mt'"
    by (auto simp: valueStoreUntouched_def newEvents_def)
qed

lemma valueStoreUntouched_trans:
  "valueStoreUntouched a b \<Longrightarrow> valueStoreUntouched b c \<Longrightarrow> valueStoreUntouched a c"
  unfolding valueStoreUntouched_iff by auto

lemma valueStoreUntouched_persistNode: "valueStoreUntouched mt (snd (mt_persistNode env n mt))"
  unfolding valueStoreUntouched_iff by (simp add: mt_persistNode_def split: prod.splits)

lemma valueStoreUntouched_removeNode: "valueStoreUntouched mt (snd (mt_removeNodeFromStore env n mt))"
  unfolding valueStoreUntouched_iff by (simp add: mt_removeNodeFromStore_def split: prod.splits)

lemma valueStoreUntouched_step:
  "valueStoreUntouched a b \<Longrightarrow> valueStoreUntouched a (snd (mt_persistNode env n b))"
  "valueStoreUntouched a b \<Longrightarrow> valueStoreUntouched a (snd (mt_removeNodeFromStore env n b))"
  using valueStoreUntouched_trans valueStoreUntouched_persistNode valueStoreUntouched_removeNode by blast+

lemma update_loop_valueStoreUntouched:
  "update_loop env k items lastRoot pos seen mt = (e, s', mt') \<Longrightarrow> valueStoreUntouched mt0 mt
     \<Longrightarrow> valueStoreUntouched mt0 mt'"
proof (induction items arbitrary: lastRoot pos seen mt)
  case Nil
  then show ?case by simp
next
  case (Cons n items)
  show ?case
  proof (cases n)
    case (Leaf p val)
    with Cons.prems show ?thesis
      by (auto intro: Cons.IH valueStoreUntouched_step)
  next
    case (Ext p c)
    with Cons.prems show ?thesis
      by (auto simp: Let_def split: option.splits sum.splits intro: Cons.IH valueStoreUntouched_step)
  next
    case (Branch cs val)
    with Cons.prems show ?thesis
      by (auto simp: Let_def split: option.splits if_splits intro: Cons.IH valueStoreUntouched_step)
  qed
qed

lemma update_valueStoreUntouched:
  "update env k s mt = (e, s', mt') \<Longrightarrow> valueStoreUntouched mt0 mt \<Longrightarrow> valueStoreUntouched mt0 mt'"
  unfolding update_def
  by (auto split: if_splits intro: update_loop_valueStoreUntouched)

lemma update_loop_stack:
  "update_loop env k items lastRoot pos seen mt = (e, s', mt') \<Longrightarrow>
     \<exists>items'. s' = seen @ items' \<and> map getNodeType items' = map getNodeType items"
proof (induction items arbitrary: lastRoot pos seen mt)
  case Nil
  then show ?case by simp
next
  case (Cons n items)
  show ?case
  proof (cases n)
    case (Leaf p val)
    with Cons.prems obtain items' where "s' = (seen @ [n]) @ items'"
      "map getNodeType items' = map getNodeType items"
      using Cons.IH by fastforce
    with Leaf show ?thesis by simp
  next
    case (Ext p c)
    show ?thesis
    proof (cases lastRoot)
      case None
      with Ext Cons.prems obtain items' where "s' = (seen @ [n]) @ items'"
        "map getNodeType items' = map getNodeType items"
        using Cons.IH by fastforce
      with Ext show ?thesis by simp
    next
      case (Some lr)
      show ?thesis
      proof (cases "getNodeHash env lr")
        case (Inl err)
        with Some Ext Cons.prems show ?thesis by auto
      next
        case (Inr h)
        with Some Ext Cons.prems obtain items' where "s' = (seen @ [setExtChild h n]) @ items'"
          "map getNodeType items' = map getNodeType items"
          using Cons.IH by (fastforce simp: Let_def)
        with Ext show ?thesis by simp
      qed
    qed
  next
    case (Branch cs val)
    show ?thesis
    proof (cases lastRoot)
      case None
      with Branch Cons.prems obtain items' where "s' = (seen @ [n]) @ items'"
        "map getNodeType items' = map getNodeType items"
        using Cons.IH by fastforce
      with Branch show ?thesis by simp
    next
      case (Some lr)
      show ?thesis
      proof (cases "pos < 0 \<or> pos = int (length k)")
        case True
        with Some Branch Cons.prems show ?thesis by auto
      next
        case False
        with Some Branch Cons.prems obtain items' where
          "s' = (seen @ [addBranchChild env (runeString (k ! nat pos)) lr n]) @ items'"
          "map getNodeType items' = map getNodeType items"
          using Cons.IH by (fastforce simp: Let_def)
        with Branch show ?thesis by (auto split: sum.splits)
      qed
    qed
  qed
qed


lemma mt_persistNode_snd: "mt_persistNode env n mt = (e, mt') \<Longrightarrow> mt' = snd (mt_persistNode env n mt)"
  by simp

lemma upsert_fork_valueStoreUntouched:
  assumes "upsert_fork env pos k v lastNode lastNodePath newBranch s mt = Returns (e, s', mt')"
      and "valueStoreUntouched mt0 mt"
  shows "valueStoreUntouched mt0 mt'"
  using assms unfolding upsert_fork_def
  by (auto simp: Let_def split: if_splits prod.splits option.splits outcome.splits sum.splits
      dest!: mt_persistNode_snd
      intro: valueStoreUntouched_step update_valueStoreUntouched)

lemma upsert_split_valueStoreUntouched:
  assumes "upsert_split env pos k v lastNode s mt = Returns (e, s', mt')"
      and "valueStoreUntouched mt0 mt"
  shows "valueStoreUntouched mt0 mt'"
  using assms unfolding upsert_split_def
  by (auto simp: Let_def split: if_splits outcome.splits sum.splits
      intro: upsert_fork_valueStoreUntouched)

lemma upsert_branch_valueStoreUntouched:
  assumes "upsert_branch env pos k v lastNode s mt = Returns (e, s', mt')"
      and "valueStoreUntouched mt0 mt"
  shows "valueStoreUntouched mt0 mt'"
  using assms unfolding upsert_branch_def
  by (auto simp: Let_def split: if_splits prod.splits outcome.splits sum.splits
      intro: valueStoreUntouched_step update_valueStoreUntouched)

lemma upsert_valueStoreUntouched:
  assumes "upsert env pos k v s mt = Returns (e, s', mt')"
      and "valueStoreUntouched mt0 mt"
  shows "valueStoreUntouched mt0 mt'"
  using assms unfolding upsert_def
  by (auto simp: Let_def split: list.splits if_splits prod.splits outcome.splits sum.splits
      intro: valueStoreUntouched_step update_valueStoreUntouched upsert_branch_valueStoreUntouched
        upsert_split_valueStoreUntouched)

lemma getPathLength_foldl:
  "foldl (\<lambda>l n. if isBranch n then l + 1
                  else if isExt n then l + int (length (getPath n))
                  else l) a s = a + sum_list (map contribution s)"
proof (induction s arbitrary: a)
  case Nil
  show ?case by simp
next
  case (Cons n s)
  show ?case by (cases n) (simp_all add: Cons.IH)
qed

lemma Get_a2_treeA1: "Get specEnv ''a2'' treeA1 = (None, [Leaf ''6131'' ''hello''], None)"
  by (simp add: specEnv_def specGet_def treeA1_def hexDigit_def)

section \<open>Put, and the concrete trees\<close>

lemma valueStoreUntouched_Get:
  "valueStoreUntouched mt (mt\<lparr>trace := trace mt @ [GetCall k]\<rparr>)"
  unfolding valueStoreUntouched_iff by simp

lemma valueStoreUntouched_root:
  "valueStoreUntouched mt mt' \<Longrightarrow> valueStoreUntouched mt (mt'\<lparr>root := r\<rparr>)"
  by (simp add: valueStoreUntouched_def newEvents_def)

lemma Put_finish_valueStoreUntouched:
  assumes "Put_finish (Returns (e, s, mt1)) = Returns (r, mt')"
      and "valueStoreUntouched mt mt1"
  shows "valueStoreUntouched mt mt'"
  using assms unfolding Put_finish_def
  by (auto split: option.splits list.splits intro: valueStoreUntouched_root)

lemma Put_finish_Returns:
  "Put_finish x = Returns (r, mt') \<Longrightarrow> \<exists>e s mt1. x = Returns (e, s, mt1)"
  unfolding Put_finish_def by (auto split: outcome.splits)

lemma Put_insert_if:
  assumes "Get env k mt = (res, stack, err)"
  shows "Put_insert env k v uv mt =
           (if res = Some v then Returns (None, mt\<lparr>trace := trace mt @ [GetCall k]\<rparr>)
            else Put_finish (upsert env (getPathLength stack) (EncodeToString k) uv stack
                   (mt\<lparr>trace := trace mt @ [GetCall k]\<rparr>)))"
  using assms by (cases res) (auto simp: Put_insert_def mt_Get_def Let_def)

lemma Put_insert_valueStoreUntouched:
  assumes "Put_insert env k v uv mt = Returns (r, mt')"
      and "valueStoreUntouched mt0 (mt\<lparr>trace := trace mt @ [GetCall k]\<rparr>)"
  shows "valueStoreUntouched mt0 mt'"
proof -
  obtain res stack err where g: "Get env k mt = (res, stack, err)"
    by (cases "Get env k mt") auto
  let ?mt1 = "mt\<lparr>trace := trace mt @ [GetCall k]\<rparr>"
  show ?thesis
  proof (cases "res = Some v")
    case True
    with assms show ?thesis
      by (simp add: Put_insert_if [OF g])
  next
    case False
    with assms(1) g have fin:
      "Put_finish (upsert env (getPathLength stack) (EncodeToString k) uv stack ?mt1)
         = Returns (r, mt')"
      by (simp add: Put_insert_if [OF g])
    then obtain e s mt2 where
      u: "upsert env (getPathLength stack) (EncodeToString k) uv stack ?mt1 = Returns (e, s, mt2)"
      using Put_finish_Returns by blast
    have "valueStoreUntouched mt0 mt2"
      using upsert_valueStoreUntouched [OF u assms(2)] .
    with fin u show ?thesis
      using Put_finish_valueStoreUntouched by simp
  qed
qed

lemma commonPrefix_same: "commonPrefix p p = p"
  by (induction p) auto

lemma Put_long:
  assumes "k \<noteq> []" and "32 < length v"
  shows "Put env k v mt =
           (case mt_persistUserValue env v mt of
              (Some err, mt1) \<Rightarrow> Returns (Some err, mt1)
            | (None, mt1) \<Rightarrow> Put_insert env k v (Sha256 env v) mt1)"
  using assms by (auto simp: Put_def)

lemma Put_short:
  assumes "k \<noteq> []" and "v \<noteq> []" and "length v \<le> 32"
  shows "Put env k v mt = Put_insert env k v v mt"
  using assms by (auto simp: Put_def)

lemma mt_persistUserValue_fields:
  "trace (snd (mt_persistUserValue env v mt)) = trace mt @ [PersistUserValue v]"
  "userData (snd (mt_persistUserValue env v mt)) = snd (persistUserValue env v (userData mt))"
  "root (snd (mt_persistUserValue env v mt)) = root mt"
  "treeData (snd (mt_persistUserValue env v mt)) = treeData mt"
  "fst (mt_persistUserValue env v mt) = fst (persistUserValue env v (userData mt))"
  by (simp_all add: mt_persistUserValue_def split: prod.splits)

lemma Put_a1_emptyTree:
  "Put specEnv ''a1'' ''hello'' emptyTree =
     Returns (None, treeA1\<lparr>trace := [GetCall ''a1'', PersistNode (Leaf ''6131'' ''hello'')]\<rparr>)"
  by (simp add: Put_def Put_insert_def Put_finish_def mt_Get_def specEnv_def specGet_def
      emptyTree_def treeA1_def upsert_def mt_persistNode_def getPathLength_def toSlice_def
      hexDigit_def Let_def)

lemma length_longValue: "length longValue = 33"
  by (simp add: longValue_def)

lemma digest32_longValue: "digest32 longValue = ''wvutsrqponmlkjihgfedcba987654321''"
  by (simp add: longValue_def digest32_def)

lemma Put_a1_long_emptyTree:
  "Put specEnv ''a1'' longValue emptyTree =
     Returns (None, treeLong\<lparr>trace := [PersistUserValue longValue, GetCall ''a1'',
       PersistNode (Leaf ''6131'' ''wvutsrqponmlkjihgfedcba987654321'')]\<rparr>)"
  by (simp add: Put_def Put_insert_def Put_finish_def mt_Get_def mt_persistUserValue_def
      specEnv_def specGet_def
      emptyTree_def treeLong_def upsert_def mt_persistNode_def getPathLength_def toSlice_def
      hexDigit_def Let_def length_longValue digest32_longValue)

lemma Get_a1_treeA1: "Get specEnv ''a1'' (treeA1\<lparr>trace := t\<rparr>) = (Some ''hello'', [Leaf ''6131'' ''hello''], None)"
  by (simp add: specEnv_def specGet_def treeA1_def hexDigit_def)

lemma persistUserValue_treeLong:
  "persistUserValue specEnv longValue (userData treeLong) = (None, userData treeLong)"
  by (simp add: specEnv_def treeLong_def digest32_longValue)

lemma Get_a1_treeLong:
  "Get specEnv ''a1'' (treeLong\<lparr>trace := t\<rparr>)
     = (Some longValue, [Leaf ''6131'' ''wvutsrqponmlkjihgfedcba987654321''], None)"
  by (simp add: specEnv_def specGet_def treeLong_def hexDigit_def)

lemma valueStoreUntouched_append:
  "valueStoreUntouched (mt\<lparr>trace := trace mt @ evs\<rparr>) mt' \<Longrightarrow>
     take (length (trace mt) + length evs) (trace mt') = trace mt @ evs"
  by (simp add: valueStoreUntouched_def)

text \<open>
  The duplicate test of \<^verbatim>\<open>Put\<close> (lines 38-44). For a non-empty key and value, if
  \<^verbatim>\<open>Get\<close>, called after the write of a long value to the value store (assumed not
  to fail), returns the value \<open>v\<close> being put, then \<^verbatim>\<open>Put\<close> returns nil, the root
  node, its hash and the node store are as before, and no call to the node store
  is made. The comparison is with \<open>v\<close> itself, not with the user value.
\<close>

lemma Put_noop_if_Get_returns_value:
  assumes "k \<noteq> []" and "v \<noteq> []"
      and "32 < length v \<longrightarrow> fst (persistUserValue env v (userData mt)) = None"
      and "fst (Get env k (if 32 < length v then snd (mt_persistUserValue env v mt) else mt))
             = Some v"
  shows "\<exists>mt'. Put env k v mt = Returns (None, mt') \<and>
               root mt' = root mt \<and> treeData mt' = treeData mt \<and>
               rootHash env mt' = rootHash env mt \<and>
               filter isNodeStoreCall (newEvents mt mt') = []"
proof (cases "32 < length v")
  case True
  obtain e1 mt1 where p: "mt_persistUserValue env v mt = (e1, mt1)"
    by (cases "mt_persistUserValue env v mt") auto
  have e1: "e1 = None"
    using assms(3) True mt_persistUserValue_fields(5) [of env v mt] p by simp
  have f: "root mt1 = root mt" "treeData mt1 = treeData mt"
    "trace mt1 = trace mt @ [PersistUserValue v]"
    using mt_persistUserValue_fields [of env v mt] p by simp_all
  obtain stack err where g: "Get env k mt1 = (Some v, stack, err)"
    using assms(4) True p by (cases "Get env k mt1") auto
  have "Put env k v mt = Returns (None, mt1\<lparr>trace := trace mt1 @ [GetCall k]\<rparr>)"
    using Put_long [OF assms(1) True, of env mt] p e1 Put_insert_if [OF g] by simp
  then show ?thesis
    by (simp add: f rootHash_def newEvents_def)
next
  case False
  then have g': "fst (Get env k mt) = Some v"
    using assms(4) by simp
  obtain stack err where g: "Get env k mt = (Some v, stack, err)"
    using g' by (cases "Get env k mt") auto
  have "Put env k v mt = Returns (None, mt\<lparr>trace := trace mt @ [GetCall k]\<rparr>)"
    using Put_short [OF assms(1,2), of env mt] False Put_insert_if [OF g] by simp
  then show ?thesis
    by (simp add: rootHash_def newEvents_def)
qed

text \<open>Unfolding everything, to run the code on a concrete tree.\<close>

lemmas run_defs =
  Put_def Put_insert_def Put_finish_def mt_Get_def mt_persistUserValue_def mt_persistNode_def
  mt_removeNodeFromStore_def upsert_def upsert_branch_def upsert_split_def upsert_fork_def
  update_def getPathLength_def toSlice_def sliceFrom_def runeString_def hexDigit_def
  specEnv_def specGet_def Let_def

text \<open>\<open>treeAB\<close> is what \<^verbatim>\<open>Put("b1", "world")\<close> makes of \<open>treeA1\<close>.\<close>

lemma Put_b1_treeA1:
  "Put specEnv ''b1'' ''world'' treeA1 =
     Returns (None, treeAB\<lparr>trace :=
       [GetCall ''b1'', RemoveNodeFromStore (Leaf ''6131'' ''hello''),
        PersistNode (Leaf ''31'' ''hello''), PersistNode (Leaf ''31'' ''world''),
        PersistNode (Branch [(''1'', ''L(31,hello)''), (''2'', ''L(31,world)'')] []),
        PersistNode (Ext ''6'' ''B(1=L(31,hello);2=L(31,world);,)'')]\<rparr>)"
  by (simp add: run_defs treeA1_def treeAB_def)

text \<open>\<open>treeA12\<close> is what \<^verbatim>\<open>Put("a2", "world")\<close> makes of \<open>treeA1\<close>.\<close>

lemma Put_a2_treeA1:
  "Put specEnv ''a2'' ''world'' treeA1 =
     Returns (None, treeA12\<lparr>trace :=
       [GetCall ''a2'', RemoveNodeFromStore (Leaf ''6131'' ''hello''),
        PersistNode (Leaf [] ''hello''), PersistNode (Leaf [] ''world''),
        PersistNode (Branch [(''1'', ''L(,hello)''), (''2'', ''L(,world)'')] []),
        PersistNode (Ext ''613'' ''B(1=L(,hello);2=L(,world);,)'')]\<rparr>)"
  by (simp add: run_defs treeA1_def treeA12_def)

text \<open>
  Case 2 of \<^verbatim>\<open>upsert\<close> on every input: the leaf that goes back on the stack is the
  leaf that was popped, since \<^verbatim>\<open>setExtChild\<close> does not change a leaf.
\<close>

lemma upsert_exact_leaf_match_pushes_old_leaf:
  assumes "sliceFrom k (getPathLength s1) = Returns rest"
      and "length (commonPrefix p rest) = length p"
      and "pos = int (length k)"
  shows "upsert env pos k v (Leaf p val # s1) mt =
           Returns (None, snd (update env k (Leaf p val # s1)
                      (snd (mt_removeNodeFromStore env (Leaf p val) mt))))"
  using assms by (simp add: upsert_def Let_def split: prod.splits)

section \<open>The cursor of update inside Put\<close>

text \<open>
  \<^verbatim>\<open>update\<close> moves its cursor down by the path length of every leaf and extension
  and by one for every branch it relinks. If the nodes of the stack, the first one
  not counted when it is a branch, use at most as many nibbles as the key has, the
  cursor is in range at every relink. That is so at the call of line 196 when
  \<open>pos\<close> is what \<^verbatim>\<open>Put\<close> computes and the stack below the branch has no leaf and
  uses no more nibbles than the key has, as in a traversal.
\<close>

lemma update_loop_cursor_in_range:
  assumes "\<And>n. getNodeHash env n \<noteq> Inl InvalidPosValue"
      and "sum_list (map specContribution items) \<le> pos + 1"
      and "pos < int (length k)"
  shows "fst (update_loop env k items (Some lr) pos seen mt) \<noteq> Some InvalidPosValue"
  using assms(2,3)
proof (induction items arbitrary: lr pos seen mt)
  case Nil
  show ?case by simp
next
  case (Cons n items)
  show ?case
  proof (cases n)
    case (Leaf p val)
    with Cons.prems show ?thesis
      by (simp add: Cons.IH)
  next
    case (Ext p c)
    show ?thesis
    proof (cases "getNodeHash env lr")
      case (Inl e)
      with Ext assms(1) [of lr] show ?thesis by auto
    next
      case (Inr h)
      with Ext Cons.prems show ?thesis
        by (simp add: Let_def Cons.IH)
    qed
  next
    case (Branch cs val)
    have nonneg: "0 \<le> sum_list (map specContribution items)"
      by (induction items) (auto, case_tac a, auto)
    with Branch Cons.prems have "0 \<le> pos" by simp
    with Branch Cons.prems show ?thesis
      by (simp add: Let_def Cons.IH)
  qed
qed

lemma update_cursor_in_range:
  assumes "\<And>n. getNodeHash env n \<noteq> Inl InvalidPosValue"
      and "(if isBranch n then 0 else int (length (getPath n))) + specPathLength rest
             \<le> int (length k)"
  shows "fst (update env k (n # rest) mt) \<noteq> Some InvalidPosValue"
proof (cases n)
  case (Leaf p val)
  with assms(2) show ?thesis
    by (simp add: update_def toSlice_def specPathLength_def
        update_loop_cursor_in_range [OF assms(1)])
next
  case (Ext p c)
  with assms(2) show ?thesis
    by (simp add: update_def toSlice_def specPathLength_def
        update_loop_cursor_in_range [OF assms(1)])
next
  case (Branch cs val)
  with assms(2) show ?thesis
    by (simp add: update_def toSlice_def specPathLength_def
        update_loop_cursor_in_range [OF assms(1)])
qed

lemma specPathLength_no_leaf:
  assumes "\<forall>n\<in>set s. \<not> isLeaf n"
  shows "specPathLength s = getPathLength s"
proof -
  have eq: "map specContribution s = map contribution s"
    using assms
  proof (induction s)
    case Nil
    show ?case by simp
  next
    case (Cons n s)
    then show ?case by (cases n) auto
  qed
  show ?thesis
    unfolding specPathLength_def getPathLength_def toSlice_def getPathLength_foldl eq
    by simp
qed

lemma getPathLength_Cons:
  "getPathLength (n # s) = contribution n + getPathLength s"
  by (simp add: getPathLength_def toSlice_def getPathLength_foldl)

lemma update_in_Put_at_line_196:
  assumes "\<And>n. getNodeHash env n \<noteq> Inl InvalidPosValue"
      and "pos = getPathLength (Branch cs val # below)"
      and "\<forall>n\<in>set below. \<not> isLeaf n"
      and "getPathLength below \<le> int (length k)"
  shows "(pos < int (length k) \<longrightarrow>
            fst (update env k (Leaf (drop (nat (pos + 1)) k) v # Branch cs val # below) mt)
              \<noteq> Some InvalidPosValue) \<and>
         (\<not> pos < int (length k) \<longrightarrow>
            fst (update env k (Branch cs v # below) mt') \<noteq> Some InvalidPosValue)"
proof (intro conjI impI)
  have sp: "specPathLength below = getPathLength below"
    using specPathLength_no_leaf [OF assms(3)] .
  have p: "pos = 1 + getPathLength below"
    using assms(2) by (simp add: getPathLength_Cons)
  have nonneg: "0 \<le> getPathLength below"
    unfolding getPathLength_def toSlice_def getPathLength_foldl
    by (induction below) (auto, case_tac a, auto)
  {
    assume lt: "pos < int (length k)"
    have "specPathLength (Branch cs val # below) = pos"
      using sp p by (simp add: specPathLength_def)
    moreover have "int (length (drop (nat (pos + 1)) k)) = int (length k) - pos - 1"
      using lt p nonneg by simp
    ultimately show "fst (update env k (Leaf (drop (nat (pos + 1)) k) v # Branch cs val # below) mt)
              \<noteq> Some InvalidPosValue"
      by (intro update_cursor_in_range [OF assms(1)]) simp
  }
  show "fst (update env k (Branch cs v # below) mt') \<noteq> Some InvalidPosValue"
    using sp assms(4) by (intro update_cursor_in_range [OF assms(1)]) simp
qed

section \<open>The claims\<close>

text \<open>
  C1. A second \<^verbatim>\<open>Put(k, v)\<close> is to leave the root hash of the first. On the
  one-leaf tree holding "hello" under the key a1, \<^verbatim>\<open>Put("a1", "world")\<close> takes the
  leaf through case 4 of \<^verbatim>\<open>upsert\<close> (\<open>pos\<close> is 0, not the length of the key, so
  case 2 is not taken): the leaf becomes an extension over a branch that holds
  the old value, and "world" is stored nowhere. \<^verbatim>\<open>Get("a1")\<close> then still finds
  "hello", the second \<^verbatim>\<open>Put("a1", "world")\<close> is not recognised as a duplicate, it
  sets the branch's value, and the root hash is another one.
\<close>

theorem Put_twice_changes_root:
  "Put specEnv ''a1'' ''world'' treeA1 = Returns (None, treeA1w) \<and>
   Get specEnv ''a1'' treeA1w
     = (Some ''hello'', [Branch [] ''hello'', Ext ''6131'' ''B(,hello)''], None) \<and>
   Put specEnv ''a1'' ''world'' treeA1w = Returns (None, treeA1ww) \<and>
   rootHash specEnv treeA1w = Some (Inr ''E(6131,B(,hello))'') \<and>
   rootHash specEnv treeA1ww = Some (Inr ''E(6131,B(,world))'') \<and>
   rootHash specEnv treeA1ww \<noteq> rootHash specEnv treeA1w"
  by (simp add: run_defs treeA1_def treeA1w_def treeA1ww_def rootHash_def)

text \<open>
  C2, as the claim states it, fails: on the one-leaf tree, \<^verbatim>\<open>Get("a2")\<close> returns
  the stack holding the leaf with path 6131, for which \<^verbatim>\<open>getPathLength\<close> is 0,
  while the count with the leaf's path length is 4.
\<close>

theorem pos_counts_leaf_counterexample:
  "Get specEnv ''a2'' treeA1 = (None, [Leaf ''6131'' ''hello''], None) \<and>
   getPathLength [Leaf ''6131'' ''hello''] = 0 \<and>
   specPathLength [Leaf ''6131'' ''hello''] = 4 \<and>
   getPathLength (fst (snd (Get specEnv ''a2'' treeA1)))
     \<noteq> specPathLength (fst (snd (Get specEnv ''a2'' treeA1)))"
  by (simp add: Get_a2_treeA1 getPathLength_def toSlice_def specPathLength_def)

text \<open>
  C2, amended. When \<^verbatim>\<open>Get\<close> does not return the value being put, the \<open>pos\<close> that
  \<^verbatim>\<open>Put\<close> passes to \<^verbatim>\<open>upsert\<close> is the sum over the stack of 1 for each branch,
  the length of the stored path for each extension, and nothing for a leaf.
\<close>

theorem Put_pos_excludes_leaves:
  assumes "Get env k mt = (res, stack, err)"
      and "res \<noteq> Some v"
  shows "getPathLength stack = sum_list (map contribution stack) \<and>
         Put_insert env k v userValue mt =
           Put_finish (upsert env (sum_list (map contribution stack)) (EncodeToString k)
             userValue stack (mt\<lparr>trace := trace mt @ [GetCall k]\<rparr>))"
proof -
  have len: "getPathLength stack = sum_list (map contribution stack)"
    by (simp add: getPathLength_def toSlice_def getPathLength_foldl)
  have "Put_insert env k v userValue mt =
      Put_finish (upsert env (getPathLength stack) (EncodeToString k) userValue stack
        (mt\<lparr>trace := trace mt @ [GetCall k]\<rparr>))"
    using assms by (cases res) (auto simp: Put_insert_def mt_Get_def Let_def)
  with len show ?thesis by simp
qed

theorem Put_pos_excludes_leaves_witness:
  "Get specEnv ''a2'' treeA1 = (None, [Leaf ''6131'' ''hello''], None) \<and>
   None \<noteq> Some ''world'' \<and>
   getPathLength [Leaf ''6131'' ''hello''] = 0 \<and>
   Put_insert specEnv ''a2'' ''world'' ''world'' treeA1 =
     Put_finish (upsert specEnv 0 ''6132'' ''world'' [Leaf ''6131'' ''hello'']
       (treeA1\<lparr>trace := [GetCall ''a2'']\<rparr>))"
proof -
  have ne: "(None :: bytes option) \<noteq> Some ''world''"
    by simp
  show ?thesis
    using Put_pos_excludes_leaves [OF Get_a2_treeA1 ne, of "''world''"] Get_a2_treeA1
    by (simp add: hexDigit_def treeA1_def)
qed

text \<open>
  C3. A store error is to reach the caller of \<^verbatim>\<open>Put\<close>. With a node store whose
  \<^verbatim>\<open>persist\<close> fails, \<^verbatim>\<open>Put("a1", "hello")\<close> on the empty tree returns nil: case 1
  of \<^verbatim>\<open>upsert\<close> does not read the result of \<^verbatim>\<open>persistNode\<close> (line 154). The root
  is set to a leaf that the node store does not hold.
\<close>

theorem Put_discards_persist_error:
  "persistNode failingEnv (Leaf ''6131'' ''hello'') []
     = (Some (CollaboratorError ''persist failed''), []) \<and>
   Put failingEnv ''a1'' ''hello'' emptyTree =
     Returns (None, \<lparr>root = Some (Leaf ''6131'' ''hello''), treeData = [], userData = [],
                     trace = [GetCall ''a1'', PersistNode (Leaf ''6131'' ''hello'')]\<rparr>)"
  by (simp add: run_defs failingEnv_def emptyTree_def)




text \<open>
  C5. A node whose content changes is to be removed under its old hash before it is
  persisted again. \<^verbatim>\<open>Put("c1", "x")\<close> on the tree with the keys a1 and b1 finds the
  branch on top of the stack: \<^verbatim>\<open>update\<close> adds a child to that branch and relinks
  the extension above it, and persists both. No call of \<^verbatim>\<open>removeNodeFromStore\<close>
  is made, and the node store still holds the branch and the extension as they
  were, next to the new ones.
\<close>

theorem Put_relink_keeps_old_entries:
  "fst (snd (Get specEnv ''c1'' treeAB)) =
     [Branch [(''1'', ''L(31,hello)''), (''2'', ''L(31,world)'')] [],
      Ext ''6'' ''B(1=L(31,hello);2=L(31,world);,)''] \<and>
   Put specEnv ''c1'' ''x'' treeAB = Returns (None, treeABC) \<and>
   filter isRemoveNodeFromStore (newEvents treeAB treeABC) = [] \<and>
   map_of (treeData treeABC) ''B(1=L(31,hello);2=L(31,world);,)''
     = Some (Branch [(''1'', ''L(31,hello)''), (''2'', ''L(31,world)'')] []) \<and>
   map_of (treeData treeABC) ''E(6,B(1=L(31,hello);2=L(31,world);,))''
     = Some (Ext ''6'' ''B(1=L(31,hello);2=L(31,world);,)'')"
  by (simp add: run_defs treeAB_def treeABC_def newEvents_def)

text \<open>
  C6. \<^verbatim>\<open>Put(k, v)\<close> with an empty key or an empty value returns
  \<^verbatim>\<open>InvalidUserDataError\<close> and the tree object is exactly as before: neither
  store is touched and no call is added to the trace.
\<close>

theorem Put_rejects_empty:
  assumes "k = [] \<or> v = []"
  shows "Put env k v mt = Returns (Some InvalidUserDataError, mt)"
  using assms by (auto simp: Put_def)

theorem Put_rejects_empty_witness:
  "Put specEnv [] ''hello'' emptyTree = Returns (Some InvalidUserDataError, emptyTree) \<and>
   Put specEnv ''a1'' [] emptyTree = Returns (Some InvalidUserDataError, emptyTree)"
  using Put_rejects_empty [of "[]" "''hello''" specEnv emptyTree]
    Put_rejects_empty [of "''a1''" "[]" specEnv emptyTree]
  by simp

text \<open>
  C7. For a non-empty key and value. A value longer than 32 bytes is first passed
  to \<^verbatim>\<open>persistUserValue\<close>; if that fails \<^verbatim>\<open>Put\<close> returns its error, otherwise the
  rest of \<^verbatim>\<open>Put\<close> runs with the user value \<^verbatim>\<open>Sha256(v)\<close>. A value of at most 32
  bytes is itself the user value, and whatever \<^verbatim>\<open>Put\<close> then returns, the value
  store is as before and no write to it has been made.
\<close>

theorem Put_user_value:
  assumes "k \<noteq> []" and "v \<noteq> []"
  shows "(32 < length v \<longrightarrow>
            (case mt_persistUserValue env v mt of
               (Some err, mt1) \<Rightarrow> Put env k v mt = Returns (Some err, mt1)
             | (None, mt1) \<Rightarrow> Put env k v mt = Put_insert env k v (Sha256 env v) mt1) \<and>
            trace (snd (mt_persistUserValue env v mt)) = trace mt @ [PersistUserValue v] \<and>
            userData (snd (mt_persistUserValue env v mt))
              = snd (persistUserValue env v (userData mt))) \<and>
         (length v \<le> 32 \<longrightarrow>
            Put env k v mt = Put_insert env k v v mt \<and>
            (\<forall>r mt'. Put env k v mt = Returns (r, mt') \<longrightarrow> valueStoreUntouched mt mt'))"
proof (intro conjI impI allI)
  assume "32 < length v"
  then show "case mt_persistUserValue env v mt of
               (Some err, mt1) \<Rightarrow> Put env k v mt = Returns (Some err, mt1)
             | (None, mt1) \<Rightarrow> Put env k v mt = Put_insert env k v (Sha256 env v) mt1"
    using Put_long [OF assms(1), of v env mt] by (simp split: prod.splits option.splits)
next
  show "trace (snd (mt_persistUserValue env v mt)) = trace mt @ [PersistUserValue v]"
    by (rule mt_persistUserValue_fields)
next
  show "userData (snd (mt_persistUserValue env v mt))
          = snd (persistUserValue env v (userData mt))"
    by (rule mt_persistUserValue_fields)
next
  assume "length v \<le> 32"
  then show "Put env k v mt = Put_insert env k v v mt"
    using Put_short [OF assms] by simp
next
  fix r mt'
  assume le: "length v \<le> 32" and p: "Put env k v mt = Returns (r, mt')"
  then have "Put_insert env k v v mt = Returns (r, mt')"
    using Put_short [OF assms le] by simp
  then show "valueStoreUntouched mt mt'"
    using Put_insert_valueStoreUntouched valueStoreUntouched_Get by blast
qed

theorem Put_user_value_witness:
  "''a1'' \<noteq> [] \<and> ''hello'' \<noteq> [] \<and> longValue \<noteq> [] \<and>
   length ''hello'' \<le> 32 \<and> 32 < length longValue \<and>
   Put specEnv ''a1'' ''hello'' emptyTree = Put_insert specEnv ''a1'' ''hello'' ''hello'' emptyTree \<and>
   Put specEnv ''a1'' ''hello'' emptyTree =
     Returns (None, treeA1\<lparr>trace := [GetCall ''a1'', PersistNode (Leaf ''6131'' ''hello'')]\<rparr>) \<and>
   valueStoreUntouched emptyTree
     (treeA1\<lparr>trace := [GetCall ''a1'', PersistNode (Leaf ''6131'' ''hello'')]\<rparr>) \<and>
   mt_persistUserValue specEnv longValue emptyTree =
     (None, emptyTree\<lparr>userData := [(digest32 longValue, longValue)],
                       trace := [PersistUserValue longValue]\<rparr>) \<and>
   Put specEnv ''a1'' longValue emptyTree =
     Put_insert specEnv ''a1'' longValue (digest32 longValue)
       (emptyTree\<lparr>userData := [(digest32 longValue, longValue)],
                  trace := [PersistUserValue longValue]\<rparr>) \<and>
   Put specEnv ''a1'' longValue emptyTree =
     Returns (None, treeLong\<lparr>trace := [PersistUserValue longValue, GetCall ''a1'',
       PersistNode (Leaf ''6131'' (digest32 longValue))]\<rparr>)"
proof -
  have k: "''a1'' \<noteq> []" by simp
  have v: "''hello'' \<noteq> []" by simp
  have lv: "longValue \<noteq> []" by (simp add: longValue_def)
  have le: "length ''hello'' \<le> 32" by simp
  have gt: "32 < length longValue" by (simp add: length_longValue)
  have p: "mt_persistUserValue specEnv longValue emptyTree =
     (None, emptyTree\<lparr>userData := [(digest32 longValue, longValue)],
                       trace := [PersistUserValue longValue]\<rparr>)"
    by (simp add: mt_persistUserValue_def specEnv_def emptyTree_def)
  have short: "Put specEnv ''a1'' ''hello'' emptyTree
                 = Put_insert specEnv ''a1'' ''hello'' ''hello'' emptyTree \<and>
               valueStoreUntouched emptyTree
     (treeA1\<lparr>trace := [GetCall ''a1'', PersistNode (Leaf ''6131'' ''hello'')]\<rparr>)"
    using Put_user_value [OF k v, of specEnv emptyTree] le Put_a1_emptyTree by simp
  have long: "Put specEnv ''a1'' longValue emptyTree =
     Put_insert specEnv ''a1'' longValue (digest32 longValue)
       (emptyTree\<lparr>userData := [(digest32 longValue, longValue)],
                  trace := [PersistUserValue longValue]\<rparr>)"
    using Put_user_value [OF k lv, of specEnv emptyTree] gt p by (simp add: specEnv_def)
  show ?thesis
    using k v lv le gt p short long Put_a1_emptyTree Put_a1_long_emptyTree
    by (simp add: digest32_longValue)
qed

text \<open>
  C8. On an exact leaf match the leaf's value is to be overwritten with \<open>v\<close>. On the
  tree with the keys a1 and a2, \<^verbatim>\<open>Get("a1")\<close> ends at the leaf with the empty path
  and \<open>pos\<close> is 4, the length of the key, so \<^verbatim>\<open>Put("a1", "again")\<close> takes case 2 of
  \<^verbatim>\<open>upsert\<close>: the old leaf is removed from the store, line 170 calls the setter
  of an extension's child on it, which leaves a leaf as it is, and \<^verbatim>\<open>update\<close>
  persists the leaf again with the value "hello". \<^verbatim>\<open>Put\<close> returns nil, the root is
  the one before, and \<^verbatim>\<open>Get("a1")\<close> still returns "hello".
\<close>

theorem Put_exact_leaf_match_keeps_old_value:
  "Get specEnv ''a1'' treeA12 =
     (Some ''hello'',
      [Leaf [] ''hello'',
       Branch [(''1'', ''L(,hello)''), (''2'', ''L(,world)'')] [],
       Ext ''613'' ''B(1=L(,hello);2=L(,world);,)''],
      None) \<and>
   getPathLength (fst (snd (Get specEnv ''a1'' treeA12))) = int (length (EncodeToString ''a1'')) \<and>
   Put specEnv ''a1'' ''again'' treeA12 = Returns (None, treeA12again) \<and>
   root treeA12again = root treeA12 \<and>
   fst (Get specEnv ''a1'' treeA12again) = Some ''hello''"
  by (simp add: run_defs treeA12_def treeA12again_def)

text \<open>
  C9. \<^verbatim>\<open>upsert\<close> on an empty stack, with a leaf constructor that builds the leaf
  it is asked for: the result is no error, the stack holds the one new leaf with
  path \<open>k\<close> and value \<open>v\<close>, and the only call made is the \<^verbatim>\<open>persistNode\<close> of that
  leaf; \<^verbatim>\<open>update\<close> is not run.
\<close>

theorem upsert_empty_stack:
  assumes "newLeafNodeContainer env k v = Inr (Leaf k v)"
  shows "upsert env pos k v [] mt =
           Returns (None, [Leaf k v],
             mt\<lparr>treeData := snd (persistNode env (Leaf k v) (treeData mt)),
                trace := trace mt @ [PersistNode (Leaf k v)]\<rparr>)"
  using assms by (simp add: upsert_def mt_persistNode_def split: prod.splits)

theorem upsert_empty_stack_witness:
  "newLeafNodeContainer specEnv ''6131'' ''hello'' = Inr (Leaf ''6131'' ''hello'') \<and>
   upsert specEnv 0 ''6131'' ''hello'' [] emptyTree =
     Returns (None, [Leaf ''6131'' ''hello''],
       \<lparr>root = None, treeData = [(''L(6131,hello)'', Leaf ''6131'' ''hello'')],
        userData = [], trace = [PersistNode (Leaf ''6131'' ''hello'')]\<rparr>)"
proof -
  have h: "newLeafNodeContainer specEnv ''6131'' ''hello'' = Inr (Leaf ''6131'' ''hello'')"
    by (simp add: specEnv_def)
  show ?thesis
    using h upsert_empty_stack [OF h, of 0 emptyTree]
    by (simp add: specEnv_def emptyTree_def)
qed

text \<open>
  C10. For a non-empty key and a value longer than 32 bytes, whenever \<^verbatim>\<open>Put\<close>
  returns, the first call it has made is \<^verbatim>\<open>persistUserValue(v)\<close> and the value store
  is what that call left; if the call succeeded, the next call is \<^verbatim>\<open>Get(k)\<close>. When
  \<^verbatim>\<open>Get\<close> then returns \<open>v\<close>, \<^verbatim>\<open>Put\<close> returns nil having made exactly these two
  calls: the tree is untouched and the value store has been written.
\<close>

theorem Put_long_value_written_first:
  assumes "k \<noteq> []" and "32 < length v"
  shows "(\<forall>r mt'. Put env k v mt = Returns (r, mt') \<longrightarrow>
            userData mt' = snd (persistUserValue env v (userData mt)) \<and>
            take (length (trace mt) + 1) (trace mt') = trace mt @ [PersistUserValue v] \<and>
            (fst (persistUserValue env v (userData mt)) = None \<longrightarrow>
               take (length (trace mt) + 2) (trace mt')
                 = trace mt @ [PersistUserValue v, GetCall k])) \<and>
         (fst (persistUserValue env v (userData mt)) = None \<and>
          fst (Get env k (snd (mt_persistUserValue env v mt))) = Some v \<longrightarrow>
            Put env k v mt =
              Returns (None, mt\<lparr>userData := snd (persistUserValue env v (userData mt)),
                                 trace := trace mt @ [PersistUserValue v, GetCall k]\<rparr>))"
proof -
  obtain e1 mt1 where p: "mt_persistUserValue env v mt = (e1, mt1)"
    by (cases "mt_persistUserValue env v mt") auto
  have e1: "e1 = fst (persistUserValue env v (userData mt))"
    using mt_persistUserValue_fields(5) [of env v mt] p by simp
  have f: "userData mt1 = snd (persistUserValue env v (userData mt))"
    "trace mt1 = trace mt @ [PersistUserValue v]"
    using mt_persistUserValue_fields [of env v mt] p by simp_all
  have mt1: "mt1 = mt\<lparr>userData := snd (persistUserValue env v (userData mt)),
                        trace := trace mt @ [PersistUserValue v]\<rparr>"
    using p by (simp add: mt_persistUserValue_def split: prod.splits)
  have put: "Put env k v mt =
           (case e1 of Some err \<Rightarrow> Returns (Some err, mt1)
            | None \<Rightarrow> Put_insert env k v (Sha256 env v) mt1)"
    using Put_long [OF assms, of env mt] p by (simp split: option.splits)
  have A: "userData mt' = snd (persistUserValue env v (userData mt)) \<and>
            take (length (trace mt) + 1) (trace mt') = trace mt @ [PersistUserValue v] \<and>
            (fst (persistUserValue env v (userData mt)) = None \<longrightarrow>
               take (length (trace mt) + 2) (trace mt')
                 = trace mt @ [PersistUserValue v, GetCall k])"
    if r: "Put env k v mt = Returns (r, mt')" for r mt'
  proof (cases e1)
    case (Some err)
    with put r have "mt' = mt1" by simp
    with f Some e1 show ?thesis by simp
  next
    case None
    with put r have ins: "Put_insert env k v (Sha256 env v) mt1 = Returns (r, mt')"
      by simp
    let ?mt2 = "mt1\<lparr>trace := trace mt1 @ [GetCall k]\<rparr>"
    have u: "valueStoreUntouched ?mt2 mt'"
      using Put_insert_valueStoreUntouched [OF ins valueStoreUntouched_refl] .
    then have ud: "userData mt' = userData mt1"
      by (simp add: valueStoreUntouched_def)
    have tk: "take (length (trace mt1) + 1) (trace mt') = trace mt1 @ [GetCall k]"
      using valueStoreUntouched_append [OF u] by simp
    then have tk2: "take (length (trace mt) + 2) (trace mt')
                      = trace mt @ [PersistUserValue v, GetCall k]"
      by (simp add: f)
    have "take (length (trace mt) + 1) (take (length (trace mt) + 2) (trace mt'))
            = trace mt @ [PersistUserValue v]"
      by (simp only: tk2) simp
    then have tk1: "take (length (trace mt) + 1) (trace mt') = trace mt @ [PersistUserValue v]"
      by (simp add: min_def)
    show ?thesis
      using ud f tk1 tk2 by simp
  qed
  have B: "Put env k v mt =
              Returns (None, mt\<lparr>userData := snd (persistUserValue env v (userData mt)),
                                 trace := trace mt @ [PersistUserValue v, GetCall k]\<rparr>)"
    if ok: "fst (persistUserValue env v (userData mt)) = None"
      and dup: "fst (Get env k (snd (mt_persistUserValue env v mt))) = Some v"
  proof -
    obtain stack err where g: "Get env k mt1 = (Some v, stack, err)"
      using dup p by (cases "Get env k mt1") auto
    have "Put env k v mt = Returns (None, mt1\<lparr>trace := trace mt1 @ [GetCall k]\<rparr>)"
      using put ok e1 Put_insert_if [OF g] by simp
    then show ?thesis
      by (simp add: mt1)
  qed
  from A B show ?thesis by blast
qed

theorem Put_long_value_written_first_witness:
  "''a1'' \<noteq> [] \<and> 32 < length longValue \<and>
   fst (persistUserValue specEnv longValue (userData treeLong)) = None \<and>
   fst (Get specEnv ''a1'' (snd (mt_persistUserValue specEnv longValue treeLong))) = Some longValue \<and>
   Put specEnv ''a1'' longValue treeLong =
     Returns (None, treeLong\<lparr>trace := [PersistUserValue longValue, GetCall ''a1'']\<rparr>)"
proof -
  have k: "''a1'' \<noteq> []" by simp
  have gt: "32 < length longValue" by (simp add: length_longValue)
  have ok: "fst (persistUserValue specEnv longValue (userData treeLong)) = None"
    using persistUserValue_treeLong by simp
  have pl: "snd (mt_persistUserValue specEnv longValue treeLong)
              = treeLong\<lparr>trace := [PersistUserValue longValue]\<rparr>"
    using persistUserValue_treeLong by (simp add: mt_persistUserValue_def treeLong_def)
  have dup: "fst (Get specEnv ''a1'' (snd (mt_persistUserValue specEnv longValue treeLong)))
               = Some longValue"
    by (simp add: pl Get_a1_treeLong)
  have "Put specEnv ''a1'' longValue treeLong =
     Returns (None, treeLong\<lparr>trace := [PersistUserValue longValue, GetCall ''a1'']\<rparr>)"
    using Put_long_value_written_first [OF k gt, of specEnv treeLong] ok dup
      persistUserValue_treeLong
    by (simp add: treeLong_def)
  with k gt ok dup show ?thesis by simp
qed

end
